theory Spec2Isabelle
  imports Complex_Main "HOL-Library.Sublist"
begin

section \<open>Text: Python strings and the string operations of app.py\<close>

text \<open>
  A Python \<open>str\<close> is a sequence of code points. The embedding covers the texts whose
  code points are below 256: a \<^typ>\<open>string\<close> is the list of them, one \<^typ>\<open>char\<close> each,
  so \<open>len\<close> is \<^const>\<open>length\<close> and \<open>+\<close> on strings is \<open>@\<close>. The character
  classes below are the ones Python 3 uses for a \<open>str\<close> pattern (Unicode matching) and
  for \<open>str.lower\<close> and \<open>str.strip\<close>, restricted to that range.
\<close>

definition code_point :: "char \<Rightarrow> nat" where
  "code_point c = of_char c"

text \<open>\<open>[A-Z]\<close>, \<open>[a-z]\<close> and \<open>\d\<close>: below 256 the only decimal digits are \<open>0\<close> to \<open>9\<close>.\<close>

definition is_upper_az :: "char \<Rightarrow> bool" where
  "is_upper_az c = (65 \<le> code_point c \<and> code_point c \<le> 90)"

definition is_lower_az :: "char \<Rightarrow> bool" where
  "is_lower_az c = (97 \<le> code_point c \<and> code_point c \<le> 122)"

definition is_digit :: "char \<Rightarrow> bool" where
  "is_digit c = (48 \<le> code_point c \<and> code_point c \<le> 57)"

text \<open>
  \<open>\s\<close>, which is also what \<open>str.strip()\<close> removes: tab, line feed, vertical tab, form
  feed, carriage return, the four separators 28 to 31, space, NEL (133) and the no-break
  space (160).
\<close>

definition is_space :: "char \<Rightarrow> bool" where
  "is_space c = (let n = code_point c in
     (9 \<le> n \<and> n \<le> 13) \<or> (28 \<le> n \<and> n \<le> 32) \<or> n = 133 \<or> n = 160)"

text \<open>
  \<open>\w\<close>: the alphanumeric code points and the underscore. Above 127 these are the
  Latin-1 letters, the ordinal indicators, the micro sign, the superscript digits and the
  vulgar fractions.
\<close>

definition is_word :: "char \<Rightarrow> bool" where
  "is_word c = (let n = code_point c in
     (48 \<le> n \<and> n \<le> 57) \<or> (65 \<le> n \<and> n \<le> 90) \<or> n = 95 \<or> (97 \<le> n \<and> n \<le> 122) \<or>
     n = 170 \<or> n = 178 \<or> n = 179 \<or> n = 181 \<or> n = 185 \<or> n = 186 \<or>
     (188 \<le> n \<and> n \<le> 190) \<or> (192 \<le> n \<and> n \<le> 214) \<or> (216 \<le> n \<and> n \<le> 246) \<or>
     (248 \<le> n \<and> n \<le> 255))"

text \<open>
  \<open>str.lower()\<close>, one code point at a time: \<open>A\<close> to \<open>Z\<close> and the Latin-1 capitals
  (192 to 222 without the multiplication sign 215) move up by 32, everything else stays.
\<close>

definition lower_char :: "char \<Rightarrow> char" where
  "lower_char c = (let n = code_point c in
     if (65 \<le> n \<and> n \<le> 90) \<or> (192 \<le> n \<and> n \<le> 222 \<and> n \<noteq> 215)
     then char_of (n + 32) else c)"

definition lower :: "string \<Rightarrow> string" where
  "lower s = map lower_char s"

text \<open>\<open>sub in text\<close>: \<open>sub\<close> occurs in \<open>text\<close> as a contiguous substring.\<close>

definition py_in :: "string \<Rightarrow> string \<Rightarrow> bool" where
  "py_in sub text = sublist sub text"

text \<open>\<open>text.split('\n')\<close>: the pieces between line feeds; never the empty list.\<close>

fun split_on :: "char \<Rightarrow> string \<Rightarrow> string list" where
  "split_on sep [] = [[]]"
| "split_on sep (c # cs) =
     (if c = sep then [] # split_on sep cs
      else (case split_on sep cs of
              [] \<Rightarrow> [[c]]
            | l # ls \<Rightarrow> (c # l) # ls))"

text \<open>\<open>line.strip()\<close>: leading and trailing whitespace removed.\<close>

definition strip :: "string \<Rightarrow> string" where
  "strip s = rev (dropWhile is_space (rev (dropWhile is_space s)))"

section \<open>Text Extractor: \<open>extract_text_from_pdf\<close>\<close>

text \<open>
  \<open>PyPDF2.PdfReader(file)\<close> of a valid PDF gives the pages; \<open>extract_text()\<close> of a page
  gives its text. The document is modelled by the list of these per-page texts. The
  source loops over the page numbers \<open>range(len(reader.pages))\<close> and appends
  \<open>reader.pages[page_num].extract_text()\<close> to \<open>text\<close>, which starts empty.
\<close>

fun extract_loop :: "string list \<Rightarrow> nat list \<Rightarrow> string \<Rightarrow> string" where
  "extract_loop pages [] text = text"
| "extract_loop pages (page_num # rest) text =
     extract_loop pages rest (text @ pages ! page_num)"

definition extract_text_from_pdf :: "string list \<Rightarrow> string" where
  "extract_text_from_pdf pages = extract_loop pages [0..<length pages] ''''"

section \<open>Field Extractor: \<open>extract_data_from_text\<close>\<close>

subsection \<open>The three compiled patterns\<close>

text \<open>
  \<open>name_pattern = re.compile(r'^[A-Z][a-z]+(?: [A-Z][a-z]+)+')\<close>. The pattern is
  compiled without \<open>re.MULTILINE\<close>, so \<open>^\<close> matches at position 0 only and
  \<open>search\<close> can succeed at no other start. \<open>cap_word_at\<close> is \<open>[A-Z][a-z]+\<close> at the
  head of a string: the matched word and what follows it. The repetition is greedy and a
  shorter run of \<open>[a-z]\<close> is followed by a lower-case letter, never by the space or the
  end the pattern needs next, so backtracking finds nothing the longest run does not.
\<close>

definition cap_word_at :: "string \<Rightarrow> (string \<times> string) option" where
  "cap_word_at s =
     (case s of
        [] \<Rightarrow> None
      | c # cs \<Rightarrow>
          if is_upper_az c \<and> takeWhile is_lower_az cs \<noteq> []
          then Some (c # takeWhile is_lower_az cs, dropWhile is_lower_az cs)
          else None)"

text \<open>
  \<open>more_words\<close> is the text matched by the greedy repetition of the group
  \<open>(?: [A-Z][a-z]+)\<close> at the head of a string: as many groups as match, and the empty
  string when the first one does not.
\<close>

function more_words :: "string \<Rightarrow> string" where
  "more_words [] = []"
| "more_words (c # cs) =
     (if c = CHR '' '' then
        (case cap_word_at cs of
           None \<Rightarrow> []
         | Some (w, r) \<Rightarrow> c # w @ more_words r)
      else [])"
  by pat_completeness auto
termination
proof (relation "measure length")
  show "wf (measure length)" by simp
next
  fix c :: char and cs x2 w r
  assume "cap_word_at cs = Some x2" and "(w, r) = x2"
  then have "r = dropWhile is_lower_az (tl cs)"
    by (auto simp: cap_word_at_def split: list.splits if_splits)
  moreover have "length (dropWhile is_lower_az (tl cs)) \<le> length cs"
    by (rule le_trans [OF length_dropWhile_le]) simp
  ultimately show "(r, c # cs) \<in> measure length" by simp
qed

definition name_search :: "string \<Rightarrow> string option" where
  "name_search text =
     (case cap_word_at text of
        None \<Rightarrow> None
      | Some (w, r) \<Rightarrow> if more_words r = [] then None else Some (w @ more_words r))"

text \<open>
  \<open>email_pattern = re.compile(r'[\w\.-]+@[\w\.-]+')\<close>. \<open>email_at\<close> is the match at
  the head of a string: the longest run of class characters, then \<open>@\<close>, then the longest
  run again, both non-empty. The sign \<open>@\<close> is not in the class, so a shorter first run is
  never followed by it. \<open>search\<close> takes the first start position with a match.
\<close>

definition is_email_char :: "char \<Rightarrow> bool" where
  "is_email_char c = (is_word c \<or> c = CHR ''.'' \<or> c = CHR ''-'')"

definition email_at :: "string \<Rightarrow> string option" where
  "email_at s =
     (if takeWhile is_email_char s = [] then None
      else (case dropWhile is_email_char s of
              [] \<Rightarrow> None
            | c # cs \<Rightarrow>
                if c = CHR ''@'' \<and> takeWhile is_email_char cs \<noteq> []
                then Some (takeWhile is_email_char s @ c # takeWhile is_email_char cs)
                else None))"

fun email_search :: "string \<Rightarrow> string option" where
  "email_search [] = email_at []"
| "email_search (c # cs) =
     (case email_at (c # cs) of
        Some m \<Rightarrow> Some m
      | None \<Rightarrow> email_search cs)"

text \<open>
  \<open>experience_pattern = re.compile(r'(\d+)\s+year[s]?\s+experience')\<close>.
  \<open>experience_at\<close> is \<open>group(1)\<close> of the match at the head of a string: the longest run
  of digits, whitespace, \<open>year\<close>, an \<open>s\<close> when there is one, whitespace, \<open>experience\<close>.
  Each greedy choice is forced: a shorter run of digits is followed by a digit where
  whitespace is needed, a shorter run of whitespace by whitespace where a letter is
  needed, and an \<open>s\<close> left unread stands where whitespace is needed.
\<close>

definition skip_s :: "string \<Rightarrow> string" where
  "skip_s s = (case s of [] \<Rightarrow> [] | c # cs \<Rightarrow> if c = CHR ''s'' then cs else c # cs)"

definition experience_at :: "string \<Rightarrow> string option" where
  "experience_at s =
     (let r1 = dropWhile is_digit s;
          r2 = dropWhile is_space r1;
          r3 = skip_s (drop 4 r2);
          r4 = dropWhile is_space r3
      in if takeWhile is_digit s \<noteq> [] \<and> takeWhile is_space r1 \<noteq> [] \<and> prefix ''year'' r2 \<and>
            takeWhile is_space r3 \<noteq> [] \<and> prefix ''experience'' r4
         then Some (takeWhile is_digit s)
         else None)"

fun experience_search :: "string \<Rightarrow> string option" where
  "experience_search [] = experience_at []"
| "experience_search (c # cs) =
     (case experience_at (c # cs) of
        Some g \<Rightarrow> Some g
      | None \<Rightarrow> experience_search cs)"

subsection \<open>The position heuristic\<close>

text \<open>The condition of line 79 on one line of the text.\<close>

definition position_candidate :: "string \<Rightarrow> bool" where
  "position_candidate line =
     ((\<not> py_in ''experience'' (lower line) \<and> \<not> py_in ''education'' (lower line) \<and>
       \<not> py_in ''skills'' (lower line) \<and> \<not> py_in ''contact'' (lower line)) \<and>
      length line < 50)"

text \<open>
  The \<open>for line in lines\<close> loop, on the dictionary \<open>data\<close>: the inner test is
  \<open>'position' in data and data['position'] == 'Not found'\<close>, and \<open>break\<close> leaves the
  loop after the assignment.
\<close>

fun position_loop :: "(string \<rightharpoonup> string) \<Rightarrow> string list \<Rightarrow> (string \<rightharpoonup> string)" where
  "position_loop data [] = data"
| "position_loop data (line # rest) =
     (if position_candidate line then
        (if data ''position'' = Some ''Not found''
         then data(''position'' \<mapsto> strip line)
         else position_loop data rest)
      else position_loop data rest)"

subsection \<open>The function\<close>

definition initial_data :: "string \<rightharpoonup> string" where
  "initial_data =
     [''name'' \<mapsto> ''Not found'', ''position'' \<mapsto> ''Not found'', ''email'' \<mapsto> ''Not found'',
      ''experience'' \<mapsto> ''Not found'', ''skills'' \<mapsto> ''Not found'']"

definition set_name :: "string \<Rightarrow> (string \<rightharpoonup> string) \<Rightarrow> (string \<rightharpoonup> string)" where
  "set_name text data =
     (case name_search text of None \<Rightarrow> data | Some m \<Rightarrow> data(''name'' \<mapsto> m))"

definition set_email :: "string \<Rightarrow> (string \<rightharpoonup> string) \<Rightarrow> (string \<rightharpoonup> string)" where
  "set_email text data =
     (case email_search text of None \<Rightarrow> data | Some m \<Rightarrow> data(''email'' \<mapsto> m))"

definition set_experience :: "string \<Rightarrow> (string \<rightharpoonup> string) \<Rightarrow> (string \<rightharpoonup> string)" where
  "set_experience text data =
     (case experience_search (lower text) of
        None \<Rightarrow> data
      | Some g \<Rightarrow> data(''experience'' \<mapsto> g @ '' years''))"

definition set_position :: "string \<Rightarrow> (string \<rightharpoonup> string) \<Rightarrow> (string \<rightharpoonup> string)" where
  "set_position text data = position_loop data (split_on CHR ''\<newline>'' text)"

definition set_skills :: "string \<Rightarrow> (string \<rightharpoonup> string) \<Rightarrow> (string \<rightharpoonup> string)" where
  "set_skills text data =
     (if py_in ''Skills'' text
      then data(''skills'' \<mapsto> ''Explicit Skills section found.'')
      else data(''skills'' \<mapsto> ''No explicit skills section is present; consider adding one.''))"

text \<open>
  The body of \<open>extract_data_from_text\<close>, statement by statement: the dictionary with its
  five defaults, then the name, the email, the experience, the position and the skills.
\<close>

definition extract_data_from_text :: "string \<Rightarrow> (string \<rightharpoonup> string)" where
  "extract_data_from_text text =
     set_skills text (set_position text (set_experience text (set_email text
       (set_name text initial_data))))"

section \<open>Feedback Engine: \<open>get_detailed_feedback\<close>\<close>

text \<open>
  What Python raises is a value of the model: a result is \<open>Inl\<close> of the error or \<open>Inr\<close>
  of the value, and \<open>and_then\<close> runs the next statement only after a value.
\<close>

datatype py_error = KeyError | ZeroDivisionError | ModelUnavailable

definition and_then :: "py_error + 'a \<Rightarrow> ('a \<Rightarrow> py_error + 'b) \<Rightarrow> py_error + 'b" where
  "and_then r f = (case r of Inl e \<Rightarrow> Inl e | Inr v \<Rightarrow> f v)"

definition initial_feedback :: "string \<rightharpoonup> string list" where
  "initial_feedback =
     [''grammatical_errors'' \<mapsto> [], ''professional_tone'' \<mapsto> [],
      ''unnecessary_information'' \<mapsto> [], ''experience_relevance'' \<mapsto> [],
      ''skills_relevance'' \<mapsto> []]"

text \<open>\<open>feedback[key].append(finding)\<close>: the lookup raises \<open>KeyError\<close> on a missing key.\<close>

definition append_finding ::
  "string \<Rightarrow> string \<Rightarrow> (string \<rightharpoonup> string list) \<Rightarrow> py_error + (string \<rightharpoonup> string list)" where
  "append_finding key finding feedback =
     (case feedback key of
        None \<Rightarrow> Inl KeyError
      | Some findings \<Rightarrow> Inr (feedback(key \<mapsto> findings @ [finding])))"

text \<open>
  \<open>re.findall\<close> with a pattern that is a literal string: the matches from left to right,
  the scan resuming after each match (for the empty pattern, one empty match at every
  position).
\<close>

function findall_literal :: "string \<Rightarrow> string \<Rightarrow> string list" where
  "findall_literal pat s =
     (if pat = [] then replicate (Suc (length s)) []
      else if prefix pat s then pat # findall_literal pat (drop (length pat) s)
      else (case s of [] \<Rightarrow> [] | c # cs \<Rightarrow> findall_literal pat cs))"
  by pat_completeness auto
termination
  by (relation "measure (\<lambda>(pat, s). length s)") (auto simp: prefix_def)

declare findall_literal.simps [simp del]

definition grammar_finding :: string where
  "grammar_finding =
     ''The phrase 'years experience' should be 'years of experience' for correct grammar.''"

definition tone_finding :: string where
  "tone_finding =
     ''The phrase 'Determined work placement' could be stronger as 'Determined and assigned work placements' using stronger action verbs.''"

definition gpa_finding :: string where
  "gpa_finding =
     ''The detailed GPA breakdown may be excessive unless applying for academic roles; consider summarizing.''"

definition experience_finding :: string where
  "experience_finding =
     ''The resume mixes different types of experience; consider tailoring or separating sections more clearly.''"

definition skills_finding :: string where
  "skills_finding =
     ''No explicit skills section is present; important skills should be clearly listed to improve ATS parsing.''"

definition grammar_rule ::
  "string \<Rightarrow> (string \<rightharpoonup> string list) \<Rightarrow> py_error + (string \<rightharpoonup> string list)" where
  "grammar_rule text feedback =
     (if py_in ''years experience'' (lower text) \<and> \<not> py_in ''years of experience'' (lower text)
      then append_finding ''grammatical_errors'' grammar_finding feedback
      else Inr feedback)"

definition tone_rule ::
  "string \<Rightarrow> (string \<rightharpoonup> string list) \<Rightarrow> py_error + (string \<rightharpoonup> string list)" where
  "tone_rule text feedback =
     (if py_in ''Determined work placement'' text
      then append_finding ''professional_tone'' tone_finding feedback
      else Inr feedback)"

definition gpa_rule ::
  "string \<Rightarrow> (string \<rightharpoonup> string list) \<Rightarrow> py_error + (string \<rightharpoonup> string list)" where
  "gpa_rule text feedback =
     (if py_in ''gpa'' (lower text) \<and> 1 < length (findall_literal ''gpa'' (lower text))
      then append_finding ''unnecessary_information'' gpa_finding feedback
      else Inr feedback)"

definition experience_rule ::
  "string \<Rightarrow> (string \<rightharpoonup> string list) \<Rightarrow> py_error + (string \<rightharpoonup> string list)" where
  "experience_rule text feedback =
     (if (py_in ''childcare'' (lower text) \<and> py_in ''adult care'' (lower text)) \<or>
         (py_in ''teacher'' (lower text) \<and> py_in ''caregiver'' (lower text))
      then append_finding ''experience_relevance'' experience_finding feedback
      else Inr feedback)"

definition skills_rule ::
  "string \<Rightarrow> (string \<rightharpoonup> string list) \<Rightarrow> py_error + (string \<rightharpoonup> string list)" where
  "skills_rule text feedback =
     (if \<not> py_in ''skills'' (lower text)
      then append_finding ''skills_relevance'' skills_finding feedback
      else Inr feedback)"

text \<open>The body of \<open>get_detailed_feedback\<close>: the five rules in the order of the source.\<close>

definition get_detailed_feedback :: "string \<Rightarrow> py_error + (string \<rightharpoonup> string list)" where
  "get_detailed_feedback text =
     and_then (and_then (and_then (and_then
       (grammar_rule text initial_feedback)
       (tone_rule text)) (gpa_rule text)) (experience_rule text)) (skills_rule text)"

section \<open>Fit Scorer: \<open>get_resume_score\<close>\<close>

text \<open>
  The classifier is outside the repository: \<open>load_model()\<close> followed by the call is a
  parameter of the model, a function from the prompt and the candidate labels to an error
  or to the result dictionary, of which the source reads \<open>result['scores']\<close>. Python's
  floats are taken as the reals: the rounding of the sum, the quotient and the product is
  not modelled.
\<close>

record classification =
  sequence :: string
  labels :: "string list"
  scores :: "real list"

type_synonym classifier = "string \<Rightarrow> string list \<Rightarrow> py_error + classification"

definition candidate_labels :: "string list" where
  "candidate_labels =
     [''Strong technical skills'',
      ''Experience with project management'',
      ''Clear and concise summary'',
      ''Measurable achievements included'',
      ''Well-structured and easy to read'',
      ''Relevant keywords for the job'',
      ''Excellent communication skills'']"

definition prompt :: "string \<Rightarrow> string \<Rightarrow> string" where
  "prompt resume_text job_description =
     ''Resume:\<newline>'' @ resume_text @ ''\<newline>\<newline>Job Description:\<newline>'' @ job_description"

definition get_resume_score ::
  "classifier \<Rightarrow> string \<Rightarrow> string \<Rightarrow> py_error + (real \<times> classification)" where
  "get_resume_score classifier resume_text job_description =
     (case classifier (prompt resume_text job_description) candidate_labels of
        Inl e \<Rightarrow> Inl e
      | Inr result \<Rightarrow>
          if length (scores result) = 0 then Inl ZeroDivisionError
          else Inr (sum_list (scores result) / real (length (scores result)) * 100, result))"

section \<open>The shell: the \<open>analyze_button\<close> branch at module level\<close>

text \<open>
  What the branch does is recorded as the list of its events in order: the calls into
  the four operations with their arguments, the messages shown, and an exception that
  ends it. \<open>uploaded_file\<close> is \<open>None\<close> or the uploaded document (its per-page texts), and
  the job description is falsy exactly when it is the empty string.
\<close>

datatype event =
    Sleep nat
  | Call_extract_text "string list"
  | Call_get_resume_score string string
  | Call_extract_data string
  | Call_get_detailed_feedback string
  | St_success
  | Display int "string \<rightharpoonup> string" "string \<rightharpoonup> string list"
  | St_error string
  | Raised py_error

text \<open>\<open>int(score)\<close> truncates towards zero.\<close>

definition py_int :: "real \<Rightarrow> int" where
  "py_int x = (if 0 \<le> x then \<lfloor>x\<rfloor> else \<lceil>x\<rceil>)"

definition run_analysis :: "classifier \<Rightarrow> string list \<Rightarrow> string \<Rightarrow> event list" where
  "run_analysis classifier file job_description =
     (let resume_text = extract_text_from_pdf file;
          calls = [Sleep 3, Call_extract_text file,
                   Call_get_resume_score resume_text job_description]
      in case get_resume_score classifier resume_text job_description of
           Inl e \<Rightarrow> calls @ [Raised e]
         | Inr (score, result) \<Rightarrow>
             (case get_detailed_feedback resume_text of
                Inl e \<Rightarrow>
                  calls @ [Call_extract_data resume_text,
                           Call_get_detailed_feedback resume_text, Raised e]
              | Inr feedback \<Rightarrow>
                  calls @ [Call_extract_data resume_text,
                           Call_get_detailed_feedback resume_text, St_success,
                           Display (py_int score) (extract_data_from_text resume_text)
                             feedback]))"

definition upload_message :: string where
  "upload_message = ''Please upload a resume file.''"

definition job_description_message :: string where
  "job_description_message = ''Please provide a job description.''"

definition main_area :: "classifier \<Rightarrow> bool \<Rightarrow> string list option \<Rightarrow> string \<Rightarrow> event list" where
  "main_area classifier analyze_button uploaded_file job_description =
     (if analyze_button then
        (if uploaded_file \<noteq> None \<and> job_description \<noteq> []
         then run_analysis classifier (the uploaded_file) job_description
         else if uploaded_file = None then [St_error upload_message]
         else if job_description = [] then [St_error job_description_message]
         else [])
      else [])"

definition core_call :: "event \<Rightarrow> bool" where
  "core_call e =
     (case e of
        Call_extract_text f \<Rightarrow> True
      | Call_get_resume_score r j \<Rightarrow> True
      | Call_extract_data r \<Rightarrow> True
      | Call_get_detailed_feedback r \<Rightarrow> True
      | _ \<Rightarrow> False)"

section \<open>Notions of the specification\<close>

text \<open>
  The number of positions of a string at which a pattern string occurs, overlapping
  occurrences included.
\<close>

fun occurrences :: "string \<Rightarrow> string \<Rightarrow> nat" where
  "occurrences pat [] = (if pat = [] then 1 else 0)"
| "occurrences pat (c # cs) = (if prefix pat (c # cs) then 1 else 0) + occurrences pat cs"

text \<open>The five category keys of a feedback report, and the report with given findings.\<close>

definition feedback_keys :: "string set" where
  "feedback_keys =
     {''grammatical_errors'', ''professional_tone'', ''unnecessary_information'',
      ''experience_relevance'', ''skills_relevance''}"

definition report ::
  "string list \<Rightarrow> string list \<Rightarrow> string list \<Rightarrow> string list \<Rightarrow> string list \<Rightarrow>
   (string \<rightharpoonup> string list)" where
  "report g t u e s =
     [''grammatical_errors'' \<mapsto> g, ''professional_tone'' \<mapsto> t,
      ''unnecessary_information'' \<mapsto> u, ''experience_relevance'' \<mapsto> e,
      ''skills_relevance'' \<mapsto> s]"

text \<open>A classifier stub for concrete runs: seven fixed confidences for every prompt.\<close>

definition stub_scores :: "real list" where
  "stub_scores = [1, 0, 1, 0, 1, 0, 1 / 2]"

definition stub :: classifier where
  "stub p ls = Inr \<lparr>sequence = p, labels = ls, scores = stub_scores\<rparr>"

text \<open>
  The five keys of the field map, the map with given values, and the sentinel that the
  source writes as the literal \<open>'Not found'\<close>.
\<close>

definition field_keys :: "string set" where
  "field_keys = {''name'', ''position'', ''email'', ''experience'', ''skills''}"

definition fields ::
  "string \<Rightarrow> string \<Rightarrow> string \<Rightarrow> string \<Rightarrow> string \<Rightarrow> (string \<rightharpoonup> string)" where
  "fields n p e x s =
     [''name'' \<mapsto> n, ''position'' \<mapsto> p, ''email'' \<mapsto> e, ''experience'' \<mapsto> x,
      ''skills'' \<mapsto> s]"

definition not_found :: string where
  "not_found = ''Not found''"

text \<open>
  A capitalized word is one upper-case letter followed by one or more lower-case
  letters. A text begins with a name when it is a capitalized word, then one or more
  further capitalized words each after a single space, then anything.
\<close>

definition capitalized_word :: "string \<Rightarrow> bool" where
  "capitalized_word w =
     (case w of [] \<Rightarrow> False | c # cs \<Rightarrow> is_upper_az c \<and> cs \<noteq> [] \<and> list_all is_lower_az cs)"

definition begins_with_name :: "string \<Rightarrow> bool" where
  "begins_with_name text =
     (\<exists>w ws rest. capitalized_word w \<and> ws \<noteq> [] \<and> list_all capitalized_word ws \<and>
        text = w @ concat (map ((#) CHR '' '') ws) @ rest)"

text \<open>
  An email-like string is a local part, \<open>@\<close> and a domain, both non-empty and made of
  word characters, dots and hyphens; a text has one when one is a substring of it.
\<close>

definition email_like :: "string \<Rightarrow> bool" where
  "email_like m =
     (\<exists>l d. l \<noteq> [] \<and> d \<noteq> [] \<and> list_all is_email_char l \<and> list_all is_email_char d \<and>
        m = l @ CHR ''@'' # d)"

definition has_email_like :: "string \<Rightarrow> bool" where
  "has_email_like text = (\<exists>m. email_like m \<and> sublist m text)"

text \<open>
  The experience phrasing with the number \<open>n\<close>: the digits \<open>n\<close>, whitespace, \<open>year\<close> or
  \<open>years\<close>, whitespace, \<open>experience\<close>.
\<close>

definition experience_phrase :: "string \<Rightarrow> string \<Rightarrow> bool" where
  "experience_phrase n p =
     (\<exists>w1 s w2. n \<noteq> [] \<and> list_all is_digit n \<and> w1 \<noteq> [] \<and> list_all is_space w1 \<and>
        (s = [] \<or> s = ''s'') \<and> w2 \<noteq> [] \<and> list_all is_space w2 \<and>
        p = n @ w1 @ ''year'' @ s @ w2 @ ''experience'')"

definition has_experience_phrase :: "string \<Rightarrow> bool" where
  "has_experience_phrase text = (\<exists>n p. experience_phrase n p \<and> sublist p text)"

text \<open>What the caller reads from the report: \<open>feedback[key]\<close> of the returned map.\<close>

definition findings :: "string \<Rightarrow> string \<Rightarrow> string list option" where
  "findings text key =
     (case get_detailed_feedback text of Inl e \<Rightarrow> None | Inr feedback \<Rightarrow> feedback key)"

section \<open>Properties of the Text Extractor\<close>

lemma extract_loop_concat:
  "extract_loop pages idx acc = acc @ concat (map ((!) pages) idx)"
  by (induction idx arbitrary: acc) simp_all

lemma extract_text_concat: "extract_text_from_pdf pages = concat pages"
  by (simp add: extract_text_from_pdf_def extract_loop_concat map_nth)

text \<open>
  Claim C8. \<open>extract_text_from_pdf\<close>, over the per-page texts of a valid PDF, returns
  their concatenation in page order; and the output for a page list with one more page
  appended is the old output followed by the new page's text, so it is never shorter.
\<close>

theorem extract_text_pages:
  "extract_text_from_pdf pages = concat pages \<and>
   extract_text_from_pdf (pages @ [page]) = extract_text_from_pdf pages @ page \<and>
   length (extract_text_from_pdf pages) \<le> length (extract_text_from_pdf (pages @ [page]))"
  by (simp add: extract_text_concat)

section \<open>Properties of the Fit Scorer\<close>

lemma sum_list_unit_bounds:
  fixes xs :: "real list"
  shows "\<forall>x\<in>set xs. 0 \<le> x \<and> x \<le> 1 \<Longrightarrow> 0 \<le> sum_list xs \<and> sum_list xs \<le> real (length xs)"
  by (induction xs) auto

text \<open>
  Claim C1. When the classifier returns a result with exactly 7 confidences, each in
  \<open>[0,1]\<close>, \<open>get_resume_score\<close> returns their sum divided by 7 and multiplied by 100
  (with the classifier's result beside it), and that score lies in \<open>[0,100]\<close>.
\<close>

theorem score_mean:
  assumes "classifier (prompt resume_text job_description) candidate_labels = Inr result"
    and "length (scores result) = 7"
    and "\<forall>s\<in>set (scores result). 0 \<le> s \<and> s \<le> 1"
  shows "get_resume_score classifier resume_text job_description =
           Inr (sum_list (scores result) / 7 * 100, result) \<and>
         0 \<le> sum_list (scores result) / 7 * 100 \<and> sum_list (scores result) / 7 * 100 \<le> 100"
proof -
  have "0 \<le> sum_list (scores result) \<and> sum_list (scores result) \<le> 7"
    using sum_list_unit_bounds [OF assms(3)] assms(2) by simp
  then show ?thesis
    using assms(1,2) by (simp add: get_resume_score_def)
qed

theorem score_mean_witness:
  "length stub_scores = 7 \<and> list_all (\<lambda>s. 0 \<le> s \<and> s \<le> 1) stub_scores \<and>
   get_resume_score stub ''cv'' ''job'' =
     Inr (50, \<lparr>sequence = prompt ''cv'' ''job'', labels = candidate_labels,
               scores = stub_scores\<rparr>)"
  using score_mean [of stub "''cv''" "''job''"
      "\<lparr>sequence = prompt ''cv'' ''job'', labels = candidate_labels, scores = stub_scores\<rparr>"]
  by (simp add: stub_def stub_scores_def)

section \<open>Properties of the Feedback Engine\<close>

lemma and_then_Inr: "and_then (Inr v) f = f v"
  by (simp add: and_then_def)

lemma when_append:
  "feedback key = Some [] \<Longrightarrow>
   (if c then append_finding key finding feedback else Inr feedback) =
   Inr (feedback(key \<mapsto> (if c then [finding] else [])))"
  by (simp add: append_finding_def map_upd_triv)

lemma initial_feedback_keys:
  "initial_feedback ''grammatical_errors'' = Some []"
  "initial_feedback ''professional_tone'' = Some []"
  "initial_feedback ''unnecessary_information'' = Some []"
  "initial_feedback ''experience_relevance'' = Some []"
  "initial_feedback ''skills_relevance'' = Some []"
  by (simp_all add: initial_feedback_def)

lemma dom_report: "dom (report g t u e s) = feedback_keys"
  by (auto simp: report_def feedback_keys_def)

lemma report_lookup:
  "report g t u e s ''grammatical_errors'' = Some g"
  "report g t u e s ''professional_tone'' = Some t"
  "report g t u e s ''unnecessary_information'' = Some u"
  "report g t u e s ''experience_relevance'' = Some e"
  "report g t u e s ''skills_relevance'' = Some s"
  by (simp_all add: report_def)

lemma report_values:
  "k \<in> feedback_keys \<Longrightarrow> report g t u e s k \<in> {Some g, Some t, Some u, Some e, Some s}"
  by (auto simp: report_def feedback_keys_def)

lemma updates_report:
  "initial_feedback(''grammatical_errors'' \<mapsto> g, ''professional_tone'' \<mapsto> t,
      ''unnecessary_information'' \<mapsto> u, ''experience_relevance'' \<mapsto> e,
      ''skills_relevance'' \<mapsto> s) = report g t u e s"
  by (simp add: initial_feedback_def report_def)

text \<open>
  The result of the five rules in closed form: no rule raises, and each category holds
  its rule's finding when the rule's condition holds and nothing otherwise.
\<close>

lemma get_detailed_feedback_report:
  "get_detailed_feedback text = Inr (report
     (if py_in ''years experience'' (lower text) \<and> \<not> py_in ''years of experience'' (lower text)
      then [grammar_finding] else [])
     (if py_in ''Determined work placement'' text then [tone_finding] else [])
     (if py_in ''gpa'' (lower text) \<and> 1 < length (findall_literal ''gpa'' (lower text))
      then [gpa_finding] else [])
     (if (py_in ''childcare'' (lower text) \<and> py_in ''adult care'' (lower text)) \<or>
         (py_in ''teacher'' (lower text) \<and> py_in ''caregiver'' (lower text))
      then [experience_finding] else [])
     (if \<not> py_in ''skills'' (lower text) then [skills_finding] else []))"
  unfolding get_detailed_feedback_def grammar_rule_def tone_rule_def gpa_rule_def
    experience_rule_def skills_rule_def updates_report [symmetric]
  by (simp add: when_append initial_feedback_keys and_then_Inr)

lemma report_lengths:
  assumes "length g \<le> 1" "length t \<le> 1" "length u \<le> 1" "length e \<le> 1" "length s \<le> 1"
    and "key \<in> feedback_keys"
  shows "\<exists>findings. report g t u e s key = Some findings \<and> length findings \<le> 1"
  using report_values [OF assms(6), of g t u e s] assms(1-5) by auto

lemma report_shape:
  assumes "length g \<le> 1" "length t \<le> 1" "length u \<le> 1" "length e \<le> 1" "length s \<le> 1"
  shows "dom (report g t u e s) = {''grammatical_errors'', ''professional_tone'',
       ''unnecessary_information'', ''experience_relevance'', ''skills_relevance''} \<and>
     (\<forall>key\<in>dom (report g t u e s).
        \<exists>findings. report g t u e s key = Some findings \<and> length findings \<le> 1) \<and>
     report g t u e s ''grammatical_errors'' = Some g \<and>
     report g t u e s ''professional_tone'' = Some t \<and>
     report g t u e s ''unnecessary_information'' = Some u \<and>
     report g t u e s ''experience_relevance'' = Some e \<and>
     report g t u e s ''skills_relevance'' = Some s"
proof (intro conjI)
  show "dom (report g t u e s) = {''grammatical_errors'', ''professional_tone'',
       ''unnecessary_information'', ''experience_relevance'', ''skills_relevance''}"
    by (simp only: dom_report feedback_keys_def)
  show "\<forall>key\<in>dom (report g t u e s).
        \<exists>findings. report g t u e s key = Some findings \<and> length findings \<le> 1"
    unfolding dom_report using report_lengths [OF assms] by blast
qed (rule report_lookup)+

text \<open>
  Claim C5. For every text \<open>get_detailed_feedback\<close> returns a map (it does not raise)
  whose keys are exactly the five categories, and every category's value is a list of
  length 0 or 1: each category holds the one finding of its rule when the rule's
  condition holds, and is the empty list when its rule is not triggered.
\<close>

theorem feedback_categories:
  "\<exists>feedback. get_detailed_feedback text = Inr feedback \<and>
     dom feedback = {''grammatical_errors'', ''professional_tone'', ''unnecessary_information'',
       ''experience_relevance'', ''skills_relevance''} \<and>
     (\<forall>key\<in>dom feedback. \<exists>findings. feedback key = Some findings \<and> length findings \<le> 1) \<and>
     feedback ''grammatical_errors'' =
       Some (if py_in ''years experience'' (lower text) \<and>
                \<not> py_in ''years of experience'' (lower text)
             then [grammar_finding] else []) \<and>
     feedback ''professional_tone'' =
       Some (if py_in ''Determined work placement'' text then [tone_finding] else []) \<and>
     feedback ''unnecessary_information'' =
       Some (if py_in ''gpa'' (lower text) \<and> 1 < length (findall_literal ''gpa'' (lower text))
             then [gpa_finding] else []) \<and>
     feedback ''experience_relevance'' =
       Some (if (py_in ''childcare'' (lower text) \<and> py_in ''adult care'' (lower text)) \<or>
                (py_in ''teacher'' (lower text) \<and> py_in ''caregiver'' (lower text))
             then [experience_finding] else []) \<and>
     feedback ''skills_relevance'' =
       Some (if \<not> py_in ''skills'' (lower text) then [skills_finding] else [])"
  unfolding get_detailed_feedback_report
  by (rule exI, rule conjI, rule refl, rule report_shape) simp_all

lemma feedback_example_conditions:
  "\<not> py_in ''years experience'' (lower ''gpa 3.8 overall gpa'')"
  "\<not> py_in ''skills'' (lower ''gpa 3.8 overall gpa'')"
  "py_in ''skills'' (lower ''Skills: Python'')"
  by code_simp+

theorem feedback_categories_witness:
  "(\<exists>feedback. get_detailed_feedback ''gpa 3.8 overall gpa'' = Inr feedback \<and>
     dom feedback = {''grammatical_errors'', ''professional_tone'', ''unnecessary_information'',
       ''experience_relevance'', ''skills_relevance''} \<and>
     (\<exists>findings. feedback ''professional_tone'' = Some findings \<and> length findings \<le> 1) \<and>
     feedback ''grammatical_errors'' = Some [] \<and>
     feedback ''skills_relevance'' = Some [skills_finding]) \<and>
   (\<exists>feedback. get_detailed_feedback ''Skills: Python'' = Inr feedback \<and>
     feedback ''skills_relevance'' = Some [])"
proof (rule conjI)
  show "\<exists>feedback. get_detailed_feedback ''gpa 3.8 overall gpa'' = Inr feedback \<and>
     dom feedback = {''grammatical_errors'', ''professional_tone'', ''unnecessary_information'',
       ''experience_relevance'', ''skills_relevance''} \<and>
     (\<exists>findings. feedback ''professional_tone'' = Some findings \<and> length findings \<le> 1) \<and>
     feedback ''grammatical_errors'' = Some [] \<and>
     feedback ''skills_relevance'' = Some [skills_finding]"
    using feedback_categories [of "''gpa 3.8 overall gpa''"]
    apply (elim exE conjE)
    apply (rule exI, intro conjI)
        apply assumption
       apply assumption
      apply (drule bspec [where x = "''professional_tone''"])
       apply (simp only: insert_iff simp_thms)
      apply assumption
     apply (simp only: feedback_example_conditions simp_thms if_False)
    apply (simp only: feedback_example_conditions simp_thms if_True)
    done
next
  show "\<exists>feedback. get_detailed_feedback ''Skills: Python'' = Inr feedback \<and>
     feedback ''skills_relevance'' = Some []"
    using feedback_categories [of "''Skills: Python''"]
    apply (elim exE conjE)
    apply (rule exI, intro conjI)
     apply assumption
    apply (simp only: feedback_example_conditions simp_thms if_False)
    done
qed

lemma findall_gpa_count: "length (findall_literal ''gpa'' s) = occurrences ''gpa'' s"
proof (induction "''gpa''" s rule: findall_literal.induct)
  case (1 s)
  show ?case
  proof (cases "prefix ''gpa'' s")
    case True
    then obtain r where s: "s = ''gpa'' @ r"
      by (auto simp: prefix_def)
    have "length (findall_literal ''gpa'' s) = Suc (length (findall_literal ''gpa'' r))"
      by (subst findall_literal.simps) (simp add: s)
    also have "length (findall_literal ''gpa'' r) = occurrences ''gpa'' r"
      using "1.hyps"(1) True by (simp add: s)
    also have "Suc (occurrences ''gpa'' r) = occurrences ''gpa'' s"
      by (simp add: s)
    finally show ?thesis .
  next
    case False
    show ?thesis
    proof (cases s)
      case Nil
      then show ?thesis by (subst findall_literal.simps) simp
    next
      case (Cons c cs)
      have "findall_literal ''gpa'' s = findall_literal ''gpa'' cs"
        using False by (subst findall_literal.simps) (auto simp: Cons)
      moreover have "length (findall_literal ''gpa'' cs) = occurrences ''gpa'' cs"
        using "1.hyps"(2) False Cons by simp
      moreover have "occurrences ''gpa'' s = occurrences ''gpa'' cs"
        using False by (simp add: Cons)
      ultimately show ?thesis by simp
    qed
  qed
qed

lemma occurrences_sublist: "0 < occurrences pat s \<Longrightarrow> sublist pat s"
  by (induction s) (auto simp: sublist_Cons_right split: if_splits)

lemma gpa_condition:
  "(py_in ''gpa'' s \<and> 1 < length (findall_literal ''gpa'' s)) = (1 < occurrences ''gpa'' s)"
  using occurrences_sublist [of "''gpa''" s] by (auto simp: findall_gpa_count py_in_def)

lemma gpa_example: "occurrences ''gpa'' (lower ''gpa 3.8 overall gpa'') = 2"
  by code_simp

text \<open>
  Claim C6. The category \<open>unnecessary_information\<close> holds exactly the one finding about
  GPA detail when \<open>gpa\<close> occurs more than once in the lower-cased text, and is empty when
  it occurs at most once; the text \<open>gpa 3.8 overall gpa\<close> has two occurrences and gets
  the finding.
\<close>

theorem gpa_more_than_once:
  "(\<exists>feedback. get_detailed_feedback text = Inr feedback \<and>
      feedback ''unnecessary_information'' =
        Some (if 1 < occurrences ''gpa'' (lower text) then [gpa_finding] else [])) \<and>
   occurrences ''gpa'' (lower ''gpa 3.8 overall gpa'') = 2 \<and>
   (\<exists>feedback. get_detailed_feedback ''gpa 3.8 overall gpa'' = Inr feedback \<and>
      feedback ''unnecessary_information'' = Some [gpa_finding])"
  unfolding get_detailed_feedback_report gpa_condition
  by (simp add: report_lookup gpa_example)

section \<open>Properties of the Field Extractor\<close>

lemma initial_data_fields: "initial_data = fields not_found not_found not_found not_found not_found"
  by (simp add: initial_data_def fields_def not_found_def)

lemma fields_upd:
  "(fields n p e x s)(''name'' \<mapsto> n') = fields n' p e x s"
  "(fields n p e x s)(''position'' \<mapsto> p') = fields n p' e x s"
  "(fields n p e x s)(''email'' \<mapsto> e') = fields n p e' x s"
  "(fields n p e x s)(''experience'' \<mapsto> x') = fields n p e x' s"
  "(fields n p e x s)(''skills'' \<mapsto> s') = fields n p e x s'"
  by (rule ext, simp add: fields_def)+

lemma fields_lookup:
  "fields n p e x s ''name'' = Some n"
  "fields n p e x s ''position'' = Some p"
  "fields n p e x s ''email'' = Some e"
  "fields n p e x s ''experience'' = Some x"
  "fields n p e x s ''skills'' = Some s"
  by (simp_all add: fields_def)

lemma dom_fields: "dom (fields n p e x s) = field_keys"
  by (auto simp: fields_def field_keys_def)

lemma position_loop_fields:
  "position_loop (fields n not_found e x s) lines =
   fields n (case find position_candidate lines of None \<Rightarrow> not_found | Some l \<Rightarrow> strip l) e x s"
proof (induction lines)
  case Nil
  show ?case by simp
next
  case (Cons line rest)
  have nf: "fields n not_found e x s ''position'' = Some ''Not found''"
    by (simp add: fields_lookup not_found_def)
  show ?case
    by (simp add: nf Cons fields_upd)
qed

lemma extract_data_fields:
  "extract_data_from_text text = fields
     (case name_search text of None \<Rightarrow> not_found | Some m \<Rightarrow> m)
     (case find position_candidate (split_on CHR ''\<newline>'' text) of
        None \<Rightarrow> not_found | Some l \<Rightarrow> strip l)
     (case email_search text of None \<Rightarrow> not_found | Some m \<Rightarrow> m)
     (case experience_search (lower text) of None \<Rightarrow> not_found | Some g \<Rightarrow> g @ '' years'')
     (if py_in ''Skills'' text then ''Explicit Skills section found.''
      else ''No explicit skills section is present; consider adding one.'')"
  unfolding extract_data_from_text_def set_name_def set_email_def set_experience_def
    set_position_def set_skills_def initial_data_fields
  by (simp add: fields_upd position_loop_fields split: option.split)

lemma space_not_letter: "\<not> is_upper_az CHR '' ''" "\<not> is_lower_az CHR '' ''"
  by (simp_all add: is_upper_az_def is_lower_az_def code_point_def)

lemma cap_word_at_Some:
  assumes "cap_word_at s = Some (w, r)"
  shows "capitalized_word w \<and> s = w @ r"
proof (cases s)
  case Nil
  with assms show ?thesis by (simp add: cap_word_at_def)
next
  case (Cons c cs)
  with assms have "is_upper_az c" "takeWhile is_lower_az cs \<noteq> []"
    and w: "w = c # takeWhile is_lower_az cs" and r: "r = dropWhile is_lower_az cs"
    by (auto simp: cap_word_at_def split: if_splits)
  moreover have "list_all is_lower_az (takeWhile is_lower_az cs)"
    by (simp add: list_all_iff) (meson set_takeWhileD)
  ultimately show ?thesis
    by (simp add: capitalized_word_def Cons)
qed

lemma cap_word_at_capitalized:
  assumes "capitalized_word w"
  shows "\<exists>w' r. cap_word_at (w @ rest) = Some (w', r)"
proof -
  from assms obtain c cs where w: "w = c # cs" and "is_upper_az c" "cs \<noteq> []"
    "list_all is_lower_az cs"
    by (auto simp: capitalized_word_def split: list.splits)
  then obtain d ds where "cs = d # ds" "is_lower_az d"
    by (cases cs) auto
  then have "takeWhile is_lower_az (cs @ rest) \<noteq> []" by simp
  with \<open>is_upper_az c\<close> show ?thesis
    by (simp add: cap_word_at_def w)
qed

lemma more_words_shape:
  "\<exists>ws. list_all capitalized_word ws \<and> more_words r = concat (map ((#) CHR '' '') ws) \<and>
     (more_words r \<noteq> [] \<longrightarrow> ws \<noteq> [])"
proof (induction r rule: more_words.induct)
  case 1
  show ?case by (intro exI [of _ "[]"]) simp
next
  case (2 c cs)
  show ?case
  proof (cases "c = CHR '' '' \<and> cap_word_at cs \<noteq> None")
    case False
    then have "more_words (c # cs) = []" by (auto split: option.splits)
    then show ?thesis by (intro exI [of _ "[]"]) simp
  next
    case True
    then obtain w r where c: "c = CHR '' ''" and cw: "cap_word_at cs = Some (w, r)"
      by auto
    from "2.IH" [OF c cw refl] obtain ws where ws: "list_all capitalized_word ws"
      "more_words r = concat (map ((#) CHR '' '') ws)"
      by blast
    have "capitalized_word w" using cap_word_at_Some [OF cw] by simp
    with ws c cw show ?thesis
      by (intro exI [of _ "w # ws"]) simp
  qed
qed

lemma more_words_prefix: "prefix (more_words r) r"
proof (induction r rule: more_words.induct)
  case 1
  show ?case by simp
next
  case (2 c cs)
  show ?case
  proof (cases "c = CHR '' '' \<and> cap_word_at cs \<noteq> None")
    case False
    then have "more_words (c # cs) = []" by (auto split: option.splits)
    then show ?thesis by simp
  next
    case True
    then obtain w r where c: "c = CHR '' ''" and cw: "cap_word_at cs = Some (w, r)"
      by auto
    from "2.IH" [OF c cw refl] have "prefix (more_words r) r" .
    moreover have "cs = w @ r" using cap_word_at_Some [OF cw] by simp
    ultimately show ?thesis using c cw by simp
  qed
qed

lemma more_words_first:
  "more_words r \<noteq> [] \<Longrightarrow> \<exists>u t. more_words r = CHR '' '' # u # t \<and> is_upper_az u"
proof (cases r)
  case Nil
  assume "more_words r \<noteq> []"
  with Nil show ?thesis by simp
next
  case (Cons c cs)
  assume ne: "more_words r \<noteq> []"
  with Cons obtain w r' where c: "c = CHR '' ''" and cw: "cap_word_at cs = Some (w, r')"
    by (auto split: if_splits option.splits)
  from cap_word_at_Some [OF cw] obtain u t where "w = u # t" "is_upper_az u"
    by (auto simp: capitalized_word_def split: list.splits)
  with Cons c cw show ?thesis by simp
qed

lemma name_search_Some:
  assumes "name_search text = Some m"
  shows "begins_with_name text \<and> prefix m text \<and> m \<noteq> ''Not found''"
proof -
  from assms obtain w r where cw: "cap_word_at text = Some (w, r)"
    and ne: "more_words r \<noteq> []" and m: "m = w @ more_words r"
    by (auto simp: name_search_def split: option.splits if_splits)
  have w: "capitalized_word w" and t: "text = w @ r"
    using cap_word_at_Some [OF cw] by simp_all
  obtain ws where ws: "list_all capitalized_word ws"
    "more_words r = concat (map ((#) CHR '' '') ws)" "ws \<noteq> []"
    using more_words_shape [of r] ne by blast
  obtain rest where rest: "r = more_words r @ rest"
    using more_words_prefix [of r] by (auto simp: prefix_def)
  have "text = w @ concat (map ((#) CHR '' '') ws) @ rest"
    using t rest ws(2) by simp
  with w ws have b: "begins_with_name text"
    unfolding begins_with_name_def by blast
  have p: "prefix m text"
    using t rest m by (metis append.assoc prefixI)
  obtain u tl where g: "more_words r = CHR '' '' # u # tl" and u: "is_upper_az u"
    using more_words_first [OF ne] by blast
  have nospace: "\<forall>c\<in>set w. c \<noteq> CHR '' ''"
    using w space_not_letter
    by (auto simp: capitalized_word_def list_all_iff split: list.splits)
  have "m \<noteq> ''Not found''"
  proof
    assume eq: "m = ''Not found''"
    have "dropWhile (\<lambda>c. c \<noteq> CHR '' '') m = CHR '' '' # u # tl"
      using nospace by (simp add: m g dropWhile_append)
    moreover have "dropWhile (\<lambda>c. c \<noteq> CHR '' '') ''Not found'' = '' found''"
      by simp
    ultimately have "u = CHR ''f''" using eq by simp
    with u show False by (simp add: is_upper_az_def code_point_def)
  qed
  with b p show ?thesis by simp
qed

lemma begins_with_name_search:
  assumes "begins_with_name text"
  shows "name_search text \<noteq> None"
proof -
  from assms obtain w ws rest where w: "capitalized_word w" and "ws \<noteq> []"
    and ws: "list_all capitalized_word ws"
    and t: "text = w @ concat (map ((#) CHR '' '') ws) @ rest"
    unfolding begins_with_name_def by blast
  then obtain v vs where v: "ws = v # vs" by (cases ws) auto
  let ?tail = "concat (map ((#) CHR '' '') vs) @ rest"
  have t': "text = w @ CHR '' '' # v @ ?tail" using t v by simp
  from w obtain c cs where wc: "w = c # cs" "is_upper_az c" "cs \<noteq> []" "list_all is_lower_az cs"
    by (auto simp: capitalized_word_def split: list.splits)
  have tw: "takeWhile is_lower_az (cs @ CHR '' '' # v @ ?tail) = cs"
    using wc(4) space_not_letter by (simp add: takeWhile_append2 list_all_iff)
  have dw: "dropWhile is_lower_az (cs @ CHR '' '' # v @ ?tail) = CHR '' '' # v @ ?tail"
    using wc(4) space_not_letter by (simp add: dropWhile_append2 list_all_iff)
  have cw: "cap_word_at text = Some (w, CHR '' '' # v @ ?tail)"
    using wc tw dw by (simp add: cap_word_at_def t')
  have "capitalized_word v" using ws v by simp
  then obtain v' r' where "cap_word_at (v @ ?tail) = Some (v', r')"
    using cap_word_at_capitalized by blast
  then have "more_words (CHR '' '' # v @ ?tail) \<noteq> []" by simp
  with cw show ?thesis by (simp add: name_search_def)
qed

lemma name_search_not_upper:
  "\<not> is_upper_az c \<Longrightarrow> name_search (c # rest) = None"
  by (simp add: name_search_def cap_word_at_def)

lemma at_not_email_char: "\<not> is_email_char CHR ''@''"
  by (simp add: is_email_char_def is_word_def code_point_def)

lemma list_all_takeWhile: "list_all P (takeWhile P xs)"
  by (simp add: list_all_iff) (meson set_takeWhileD)

lemma takeWhile_run:
  "list_all P xs \<Longrightarrow> \<not> P y \<Longrightarrow> takeWhile P (xs @ y # ys) = xs"
  by (simp add: takeWhile_append2 list_all_iff)

lemma dropWhile_run:
  "list_all P xs \<Longrightarrow> \<not> P y \<Longrightarrow> dropWhile P (xs @ y # ys) = y # ys"
  by (simp add: dropWhile_append2 list_all_iff)

lemma email_at_Some:
  assumes "email_at s = Some m"
  shows "email_like m \<and> prefix m s"
proof -
  let ?l = "takeWhile is_email_char s"
  from assms obtain cs where l: "?l \<noteq> []" and dw: "dropWhile is_email_char s = CHR ''@'' # cs"
    and d: "takeWhile is_email_char cs \<noteq> []"
    and m: "m = ?l @ CHR ''@'' # takeWhile is_email_char cs"
    by (auto simp: email_at_def split: if_splits list.splits)
  have "email_like m"
    unfolding email_like_def using l d m list_all_takeWhile by blast
  moreover have "s = ?l @ CHR ''@'' # takeWhile is_email_char cs @ dropWhile is_email_char cs"
    using takeWhile_dropWhile_id [of is_email_char s] dw by simp
  then have "prefix m s"
    unfolding m prefix_def by (metis append.assoc append_Cons)
  ultimately show ?thesis ..
qed

lemma email_search_Some:
  "email_search s = Some m \<Longrightarrow> email_like m \<and> sublist m s"
proof (induction s)
  case Nil
  then show ?case by (simp add: email_at_def)
next
  case (Cons c cs)
  show ?case
  proof (cases "email_at (c # cs)")
    case None
    with Cons.prems have "email_search cs = Some m" by simp
    from Cons.IH [OF this] show ?thesis by (auto simp: sublist_Cons_right)
  next
    case (Some m')
    with Cons.prems have "m' = m" by simp
    with Some email_at_Some [of "c # cs" m] show ?thesis by auto
  qed
qed

lemma email_at_like:
  assumes "email_like m"
  shows "email_at (m @ post) \<noteq> None"
proof -
  from assms obtain l d where l: "l \<noteq> []" "list_all is_email_char l"
    and d: "d \<noteq> []" "list_all is_email_char d" and m: "m = l @ CHR ''@'' # d"
    unfolding email_like_def by blast
  have tw: "takeWhile is_email_char (m @ post) = l"
    using takeWhile_run [OF l(2) at_not_email_char] by (simp add: m)
  have dw: "dropWhile is_email_char (m @ post) = CHR ''@'' # d @ post"
    using dropWhile_run [OF l(2) at_not_email_char] by (simp add: m)
  obtain x xs where "d = x # xs" "is_email_char x"
    using d by (cases d) auto
  then have "takeWhile is_email_char (d @ post) \<noteq> []" by simp
  then show ?thesis
    using l(1) by (simp add: email_at_def tw dw)
qed

lemma email_search_at: "email_at s \<noteq> None \<Longrightarrow> email_search s \<noteq> None"
  by (cases s) auto

lemma email_search_append: "email_search s \<noteq> None \<Longrightarrow> email_search (pre @ s) \<noteq> None"
  by (induction pre) (auto split: option.splits)

lemma has_email_like_search:
  assumes "has_email_like text"
  shows "email_search text \<noteq> None"
proof -
  from assms obtain m pre post where "email_like m" "text = pre @ m @ post"
    unfolding has_email_like_def sublist_def by blast
  then show ?thesis
    using email_search_append [OF email_search_at [OF email_at_like]] by simp
qed

lemma email_like_found:
  assumes "email_like m"
  shows "m \<noteq> ''Not found''"
proof
  assume nf: "m = ''Not found''"
  from assms obtain l d where "m = l @ CHR ''@'' # d"
    unfolding email_like_def by blast
  then have "CHR ''@'' \<in> set m" by simp
  then show False unfolding nf by simp
qed

lemma space_facts:
  "is_space c \<Longrightarrow> \<not> is_digit c" "is_space c \<Longrightarrow> c \<noteq> CHR ''s''"
  "\<not> is_space CHR ''y''" "\<not> is_space CHR ''e''"
  by (auto simp: is_space_def is_digit_def code_point_def Let_def)

lemma skip_s_cases: "\<exists>s. (s = [] \<or> s = ''s'') \<and> x = s @ skip_s x"
  by (cases x) (auto simp: skip_s_def)

lemma experience_at_Some:
  assumes "experience_at s = Some g"
  shows "\<exists>p. experience_phrase g p \<and> prefix p s"
proof -
  define r1 where "r1 = dropWhile is_digit s"
  define r2 where "r2 = dropWhile is_space r1"
  define r3 where "r3 = skip_s (drop 4 r2)"
  define r4 where "r4 = dropWhile is_space r3"
  define w1 where "w1 = takeWhile is_space r1"
  define w2 where "w2 = takeWhile is_space r3"
  from assms have g: "g = takeWhile is_digit s" "g \<noteq> []" and w1: "w1 \<noteq> []"
    and y: "prefix ''year'' r2" and w2: "w2 \<noteq> []" and e: "prefix ''experience'' r4"
    unfolding experience_at_def Let_def r1_def r2_def r3_def r4_def w1_def w2_def
    by (auto split: if_splits)
  obtain so where so: "so = [] \<or> so = ''s''" "drop 4 r2 = so @ r3"
    using skip_s_cases [of "drop 4 r2"] unfolding r3_def by blast
  obtain post where post: "r4 = ''experience'' @ post"
    using e by (auto simp: prefix_def)
  have s1: "s = g @ r1" by (simp add: g r1_def)
  have s2: "r1 = w1 @ r2" by (simp add: w1_def r2_def)
  have s3: "r2 = ''year'' @ drop 4 r2"
    using y by (auto simp: prefix_def)
  have s4: "r3 = w2 @ r4" by (simp add: w2_def r4_def)
  have "s = (g @ w1 @ ''year'' @ so @ w2 @ ''experience'') @ post"
    using s1 s2 s3 so(2) s4 post by (metis append.assoc)
  then have "prefix (g @ w1 @ ''year'' @ so @ w2 @ ''experience'') s"
    by (metis prefixI)
  moreover have "experience_phrase g (g @ w1 @ ''year'' @ so @ w2 @ ''experience'')"
    unfolding experience_phrase_def
    using g w1 w2 so(1) list_all_takeWhile [of is_digit s] list_all_takeWhile [of is_space r1]
      list_all_takeWhile [of is_space r3]
    unfolding w1_def w2_def by blast
  ultimately show ?thesis by blast
qed

lemma experience_at_phrase:
  assumes "experience_phrase n p"
  shows "experience_at (p @ post) = Some n"
proof -
  from assms obtain w1 so w2 where n: "n \<noteq> []" "list_all is_digit n"
    and w1: "w1 \<noteq> []" "list_all is_space w1" and so: "so = [] \<or> so = ''s''"
    and w2: "w2 \<noteq> []" "list_all is_space w2"
    and p: "p = n @ w1 @ ''year'' @ so @ w2 @ ''experience''"
    unfolding experience_phrase_def by blast
  obtain x xs where x: "w1 = x # xs" "is_space x" using w1 by (cases w1) auto
  obtain z zs where z: "w2 = z # zs" "is_space z" using w2 by (cases w2) auto
  let ?t4 = "''experience'' @ post"
  let ?t3 = "w2 @ ?t4"
  let ?t2 = "''year'' @ so @ ?t3"
  let ?t1 = "w1 @ ?t2"
  have pp: "p @ post = n @ ?t1" by (simp add: p)
  have a1: "takeWhile is_digit (n @ ?t1) = n" "dropWhile is_digit (n @ ?t1) = ?t1"
    using takeWhile_run [OF n(2), of x] dropWhile_run [OF n(2), of x] space_facts(1) [OF x(2)]
    by (simp_all add: x(1))
  have a2: "takeWhile is_space ?t1 = w1" "dropWhile is_space ?t1 = ?t2"
    using takeWhile_run [OF w1(2) space_facts(3)] dropWhile_run [OF w1(2) space_facts(3)]
    by simp_all
  have a3: "prefix ''year'' ?t2" "drop 4 ?t2 = so @ ?t3"
    by simp_all
  have a4: "skip_s (so @ ?t3) = ?t3"
    using so space_facts(2) [OF z(2)] by (auto simp: skip_s_def z(1))
  have a5: "takeWhile is_space ?t3 = w2" "dropWhile is_space ?t3 = ?t4"
    using takeWhile_run [OF w2(2) space_facts(4)] dropWhile_run [OF w2(2) space_facts(4)]
    by simp_all
  have a6: "prefix ''experience'' ?t4" by simp
  show ?thesis
    unfolding pp experience_at_def Let_def a1 a2 a3 a4 a5
    using n(1) w1(1) w2(1) a3(1) a6 by simp
qed

lemma experience_search_Some:
  "experience_search s = Some g \<Longrightarrow> \<exists>p. experience_phrase g p \<and> sublist p s"
proof (induction s)
  case Nil
  from experience_at_Some [of "[]" g] Nil show ?case by auto
next
  case (Cons c cs)
  show ?case
  proof (cases "experience_at (c # cs)")
    case None
    with Cons.prems have "experience_search cs = Some g" by simp
    from Cons.IH [OF this] show ?thesis by (auto simp: sublist_Cons_right)
  next
    case (Some g')
    with Cons.prems have "g' = g" by simp
    with Some experience_at_Some [of "c # cs" g] show ?thesis by auto
  qed
qed

lemma experience_search_at: "experience_at s \<noteq> None \<Longrightarrow> experience_search s \<noteq> None"
  by (cases s) auto

lemma experience_search_append:
  "experience_search s \<noteq> None \<Longrightarrow> experience_search (pre @ s) \<noteq> None"
  by (induction pre) (auto split: option.splits)

lemma has_experience_phrase_search:
  assumes "has_experience_phrase s"
  shows "experience_search s \<noteq> None"
proof -
  from assms obtain n p pre post where np: "experience_phrase n p" and "s = pre @ p @ post"
    unfolding has_experience_phrase_def sublist_def by blast
  moreover have "experience_search (p @ post) \<noteq> None"
    using experience_search_at [of "p @ post"] experience_at_phrase [OF np, of post] by simp
  ultimately show ?thesis
    using experience_search_append by simp
qed

lemma experience_value_found:
  assumes "experience_phrase g p"
  shows "g @ '' years'' \<noteq> ''Not found''"
proof
  assume eq: "g @ '' years'' = ''Not found''"
  from assms obtain d ds where g: "g = d # ds" "is_digit d"
    unfolding experience_phrase_def by (cases g) auto
  with eq have "d = CHR ''N''" by simp
  with g(2) show False by (simp add: is_digit_def code_point_def)
qed

lemma extract_name:
  "extract_data_from_text text ''name'' =
   Some (case name_search text of None \<Rightarrow> ''Not found'' | Some m \<Rightarrow> m)"
  by (simp add: extract_data_fields fields_lookup not_found_def split: option.split)

lemma extract_email:
  "extract_data_from_text text ''email'' =
   Some (case email_search text of None \<Rightarrow> ''Not found'' | Some m \<Rightarrow> m)"
  by (simp add: extract_data_fields fields_lookup not_found_def split: option.split)

lemma extract_experience:
  "extract_data_from_text text ''experience'' =
   Some (case experience_search (lower text) of None \<Rightarrow> ''Not found'' | Some g \<Rightarrow> g @ '' years'')"
  by (simp add: extract_data_fields fields_lookup not_found_def split: option.split)

lemma extract_position:
  "extract_data_from_text text ''position'' =
   Some (case find position_candidate (split_on CHR ''\<newline>'' text) of
           None \<Rightarrow> ''Not found'' | Some line \<Rightarrow> strip line)"
  by (simp add: extract_data_fields fields_lookup not_found_def split: option.split)

lemma extract_skills:
  "extract_data_from_text text ''skills'' =
   Some (if py_in ''Skills'' text then ''Explicit Skills section found.''
         else ''No explicit skills section is present; consider adding one.'')"
  by (simp add: extract_data_fields fields_lookup)

lemma dom_extract:
  "dom (extract_data_from_text text) = {''name'', ''position'', ''email'', ''experience'', ''skills''}"
  by (simp only: extract_data_fields dom_fields field_keys_def)

text \<open>
  Claim C10. The name field differs from \<open>Not found\<close> exactly when the text begins, at
  its first character, with a capitalized word followed by one or more further
  capitalized words, each after a space; and a text whose first character is not an
  upper-case letter (a leading line feed, a space, a lower-case prefix) has the name
  \<open>Not found\<close>, whatever follows.
\<close>

theorem name_found_iff:
  "(extract_data_from_text text ''name'' \<noteq> Some ''Not found'') = begins_with_name text \<and>
   (\<not> is_upper_az c \<longrightarrow> extract_data_from_text (c # rest) ''name'' = Some ''Not found'')"
proof (intro conjI impI)
  show "(extract_data_from_text text ''name'' \<noteq> Some ''Not found'') = begins_with_name text"
  proof (cases "name_search text")
    case None
    with begins_with_name_search [of "text"] show ?thesis
      by (auto simp: extract_name)
  next
    case (Some m)
    with name_search_Some [of "text" m] show ?thesis
      by (simp add: extract_name)
  qed
next
  assume "\<not> is_upper_az c"
  then show "extract_data_from_text (c # rest) ''name'' = Some ''Not found''"
    by (simp add: extract_name name_search_not_upper)
qed

lemma name_examples:
  "extract_data_from_text ''John Smith'' ''name'' = Some ''John Smith''"
  "extract_data_from_text (CHR ''\<newline>'' # ''John Smith'') ''name'' = Some ''Not found''"
  "extract_data_from_text '' John Smith'' ''name'' = Some ''Not found''"
  "extract_data_from_text ''mr John Smith'' ''name'' = Some ''Not found''"
  by code_simp+

theorem name_found_iff_witness:
  "begins_with_name ''John Smith'' \<and>
   \<not> is_upper_az CHR ''\<newline>'' \<and>
   extract_data_from_text (CHR ''\<newline>'' # ''John Smith'') ''name'' = Some ''Not found'' \<and>
   \<not> begins_with_name '' John Smith'' \<and> \<not> begins_with_name ''mr John Smith''"
proof -
  have "\<not> is_upper_az CHR ''\<newline>''"
    by (simp add: is_upper_az_def code_point_def)
  then show ?thesis
    using name_found_iff [of "''John Smith''" "CHR ''\<newline>''" "''John Smith''"]
      name_found_iff [of "'' John Smith''" "CHR ''\<newline>''" "''John Smith''"]
      name_found_iff [of "''mr John Smith''" "CHR ''\<newline>''" "''John Smith''"]
    by (simp add: name_examples)
qed

lemma find_member: "find P xs = Some x \<Longrightarrow> x \<in> set xs \<and> P x"
  by (induction xs) (auto split: if_splits)

text \<open>
  Claim C7, as amended. The position field is the first line of the text split at line
  feeds that satisfies the condition of line 79 (shorter than 50 characters, none of the
  four keywords in its lower-cased form), with leading and trailing whitespace stripped;
  it is \<open>Not found\<close> when no line satisfies the condition.
\<close>

theorem position_stripped_line:
  "extract_data_from_text text ''position'' =
   Some (case find position_candidate (split_on CHR ''\<newline>'' text) of
           None \<Rightarrow> ''Not found'' | Some line \<Rightarrow> strip line)"
  by (rule extract_position)

text \<open>
  The claim as stated fails: for the text \<open>" Manager"\<close> the first qualifying line is
  \<open>" Manager"\<close>, and the position field is \<open>"Manager"\<close>.
\<close>

theorem position_not_the_line:
  "find position_candidate (split_on CHR ''\<newline>'' '' Manager'') = Some '' Manager'' \<and>
   extract_data_from_text '' Manager'' ''position'' = Some ''Manager'' \<and>
   extract_data_from_text '' Manager'' ''position'' \<noteq> Some '' Manager''"
  by code_simp

text \<open>
  Claim C3, as amended. For the scenario text the name is \<open>John Smith\<close>, the email
  \<open>john.smith@example.com\<close>, the experience \<open>5 years\<close> and the skills value
  \<open>Explicit Skills section found.\<close>, with the full stop of the source.
\<close>

theorem scenario_fields:
  "extract_data_from_text
     ''John Smith\<newline>john.smith@example.com\<newline>5 years experience\<newline>Skills: Python, SQL''
     ''name'' = Some ''John Smith'' \<and>
   extract_data_from_text
     ''John Smith\<newline>john.smith@example.com\<newline>5 years experience\<newline>Skills: Python, SQL''
     ''email'' = Some ''john.smith@example.com'' \<and>
   extract_data_from_text
     ''John Smith\<newline>john.smith@example.com\<newline>5 years experience\<newline>Skills: Python, SQL''
     ''experience'' = Some ''5 years'' \<and>
   extract_data_from_text
     ''John Smith\<newline>john.smith@example.com\<newline>5 years experience\<newline>Skills: Python, SQL''
     ''skills'' = Some ''Explicit Skills section found.''"
  by code_simp

text \<open>
  The claim as stated fails: the skills value is not the string without the full stop.
\<close>

theorem scenario_skills_period:
  "extract_data_from_text
     ''John Smith\<newline>john.smith@example.com\<newline>5 years experience\<newline>Skills: Python, SQL''
     ''skills'' \<noteq> Some ''Explicit Skills section found''"
  by code_simp

text \<open>
  Claim C4, as amended. \<open>extract_data_from_text\<close> is a total function of the text, and
  its map has exactly the five keys. The name is \<open>Not found\<close> or the matched prefix of
  the text; the email is \<open>Not found\<close> or an email-like substring of the text; the
  experience is \<open>Not found\<close> or the matched digits followed by \<open>" years"\<close>; the
  position is \<open>Not found\<close> or a stripped line of the text; the skills value is one of
  the two messages of the source and never \<open>Not found\<close>. The email is \<open>Not found\<close>
  exactly when the text has no email-like substring. \<open>get_detailed_feedback\<close> returns a
  report and raises nothing.
\<close>

theorem fields_always:
  "dom (extract_data_from_text text) =
     {''name'', ''position'', ''email'', ''experience'', ''skills''} \<and>
   (\<exists>m. extract_data_from_text text ''name'' = Some m \<and> (m = ''Not found'' \<or> prefix m text)) \<and>
   (\<exists>m. extract_data_from_text text ''email'' = Some m \<and>
      (m = ''Not found'' \<or> email_like m \<and> sublist m text)) \<and>
   (\<exists>v. extract_data_from_text text ''experience'' = Some v \<and>
      (v = ''Not found'' \<or>
       (\<exists>n p. v = n @ '' years'' \<and> experience_phrase n p \<and> sublist p (lower text)))) \<and>
   (\<exists>v. extract_data_from_text text ''position'' = Some v \<and>
      (v = ''Not found'' \<or> (\<exists>line. v = strip line \<and> line \<in> set (split_on CHR ''\<newline>'' text)))) \<and>
   (extract_data_from_text text ''skills'' = Some ''Explicit Skills section found.'' \<or>
    extract_data_from_text text ''skills'' =
      Some ''No explicit skills section is present; consider adding one.'') \<and>
   extract_data_from_text text ''skills'' \<noteq> Some ''Not found'' \<and>
   (extract_data_from_text text ''email'' = Some ''Not found'') = (\<not> has_email_like text) \<and>
   (\<exists>feedback. get_detailed_feedback text = Inr feedback)"
proof (intro conjI)
  show "dom (extract_data_from_text text) =
     {''name'', ''position'', ''email'', ''experience'', ''skills''}"
    by (rule dom_extract)
  show "\<exists>m. extract_data_from_text text ''name'' = Some m \<and> (m = ''Not found'' \<or> prefix m text)"
    using name_search_Some [of "text"] by (cases "name_search text") (simp_all add: extract_name)
  show "\<exists>m. extract_data_from_text text ''email'' = Some m \<and>
      (m = ''Not found'' \<or> email_like m \<and> sublist m text)"
    using email_search_Some [of "text"] by (cases "email_search text") (simp_all add: extract_email)
  show "\<exists>v. extract_data_from_text text ''experience'' = Some v \<and>
      (v = ''Not found'' \<or>
       (\<exists>n p. v = n @ '' years'' \<and> experience_phrase n p \<and> sublist p (lower text)))"
    using experience_search_Some [of "lower text"]
    by (cases "experience_search (lower text)") (simp_all add: extract_experience)
  show "\<exists>v. extract_data_from_text text ''position'' = Some v \<and>
      (v = ''Not found'' \<or> (\<exists>line. v = strip line \<and> line \<in> set (split_on CHR ''\<newline>'' text)))"
    using find_member [of position_candidate "split_on CHR ''\<newline>'' text"]
    by (cases "find position_candidate (split_on CHR ''\<newline>'' text)")
      (auto simp: extract_position)
  show "extract_data_from_text text ''skills'' = Some ''Explicit Skills section found.'' \<or>
    extract_data_from_text text ''skills'' =
      Some ''No explicit skills section is present; consider adding one.''"
    by (simp add: extract_skills)
  show "extract_data_from_text text ''skills'' \<noteq> Some ''Not found''"
    by (simp add: extract_skills)
  show "(extract_data_from_text text ''email'' = Some ''Not found'') = (\<not> has_email_like text)"
  proof (cases "email_search text")
    case None
    with has_email_like_search [of "text"] show ?thesis by (auto simp: extract_email)
  next
    case (Some m)
    with email_search_Some [of "text" m] email_like_found [of m] show ?thesis
      by (auto simp: extract_email has_email_like_def)
  qed
  show "\<exists>feedback. get_detailed_feedback text = Inr feedback"
    using get_detailed_feedback_report by blast
qed

text \<open>
  The claim as stated fails: for the empty text the skills value is neither
  \<open>Not found\<close> nor a string matched in the text.
\<close>

theorem skills_never_not_found:
  "extract_data_from_text [] ''skills'' =
     Some ''No explicit skills section is present; consider adding one.'' \<and>
   extract_data_from_text [] ''skills'' \<noteq> Some ''Not found'' \<and>
   \<not> sublist ''No explicit skills section is present; consider adding one.'' []"
  by code_simp

subsection \<open>The grammar rule and the experience pattern\<close>

lemma findings_grammar:
  "findings text ''grammatical_errors'' =
   Some (if py_in ''years experience'' (lower text) \<and> \<not> py_in ''years of experience'' (lower text)
         then [grammar_finding] else [])"
  unfolding findings_def get_detailed_feedback_report
  by (simp only: sum.case report_lookup)

lemma py_in_lower: "py_in a t \<Longrightarrow> py_in (lower a) (lower t)"
  unfolding py_in_def lower_def by (rule map_mono_sublist)

lemma py_in_trans: "py_in a b \<Longrightarrow> py_in b c \<Longrightarrow> py_in a c"
  unfolding py_in_def by (rule sublist_order.order.trans)

lemma of_phrase_lower:
  "py_in ''years of experience'' (lower ''I have 5 years of experience'')"
  by code_simp

lemma plain_phrase_lower:
  "py_in ''years experience'' (lower ''I have 5 years experience'')"
  by code_simp

lemma experience_found_iff:
  "(extract_data_from_text text ''experience'' \<noteq> Some ''Not found'') =
   has_experience_phrase (lower text)"
proof (cases "experience_search (lower text)")
  case None
  with has_experience_phrase_search [of "lower text"] show ?thesis
    by (auto simp: extract_experience)
next
  case (Some g)
  from experience_search_Some [OF Some] obtain p where
    p: "experience_phrase g p" "sublist p (lower text)" by blast
  then have "has_experience_phrase (lower text)"
    unfolding has_experience_phrase_def by blast
  with experience_value_found [OF p(1)] Some show ?thesis
    by (simp add: extract_experience)
qed

text \<open>
  Claim C2, as amended. The grammar category holds its finding exactly when the
  lower-cased text contains \<open>years experience\<close> and not \<open>years of experience\<close>. A
  text containing \<open>I have 5 years of experience\<close> gets no grammar finding; a text
  containing \<open>I have 5 years experience\<close> and, lower-cased, no \<open>years of experience\<close>
  gets it; of the two sentences themselves, the first gets no finding and the second
  gets it. The experience field is
  extracted exactly when the lower-cased text contains the phrasing digits, whitespace,
  \<open>year\<close> or \<open>years\<close>, whitespace, \<open>experience\<close>: from \<open>I have 5 years experience\<close>
  it is \<open>5 years\<close>, from \<open>I have 5 years of experience\<close> it is \<open>Not found\<close>.
\<close>

theorem grammar_and_experience:
  "findings text ''grammatical_errors'' =
     Some (if py_in ''years experience'' (lower text) \<and>
              \<not> py_in ''years of experience'' (lower text)
           then [grammar_finding] else []) \<and>
   (py_in ''I have 5 years of experience'' t1 \<longrightarrow> findings t1 ''grammatical_errors'' = Some []) \<and>
   (py_in ''I have 5 years experience'' t2 \<and> \<not> py_in ''years of experience'' (lower t2) \<longrightarrow>
      findings t2 ''grammatical_errors'' = Some [grammar_finding]) \<and>
   findings ''I have 5 years experience'' ''grammatical_errors'' = Some [grammar_finding] \<and>
   findings ''I have 5 years of experience'' ''grammatical_errors'' = Some [] \<and>
   (extract_data_from_text text ''experience'' \<noteq> Some ''Not found'') =
     has_experience_phrase (lower text) \<and>
   extract_data_from_text ''I have 5 years experience'' ''experience'' = Some ''5 years'' \<and>
   extract_data_from_text ''I have 5 years of experience'' ''experience'' = Some ''Not found''"
proof (intro conjI impI)
  show "findings text ''grammatical_errors'' =
     Some (if py_in ''years experience'' (lower text) \<and>
              \<not> py_in ''years of experience'' (lower text)
           then [grammar_finding] else [])"
    by (rule findings_grammar)
  show "findings t1 ''grammatical_errors'' = Some []"
    if "py_in ''I have 5 years of experience'' t1"
  proof -
    have "py_in ''years of experience'' (lower t1)"
      using py_in_trans [OF of_phrase_lower py_in_lower [OF that]] .
    then show ?thesis by (simp add: findings_grammar)
  qed
  show "findings t2 ''grammatical_errors'' = Some [grammar_finding]"
    if "py_in ''I have 5 years experience'' t2 \<and> \<not> py_in ''years of experience'' (lower t2)"
  proof -
    have "py_in ''years experience'' (lower t2)"
      using py_in_trans [OF plain_phrase_lower py_in_lower] that by blast
    with that show ?thesis by (simp add: findings_grammar)
  qed
  show "findings ''I have 5 years experience'' ''grammatical_errors'' = Some [grammar_finding]"
  proof -
    have "\<not> py_in ''years of experience'' (lower ''I have 5 years experience'')"
      by code_simp
    with plain_phrase_lower show ?thesis by (simp add: findings_grammar)
  qed
  show "findings ''I have 5 years of experience'' ''grammatical_errors'' = Some []"
    using of_phrase_lower by (simp add: findings_grammar)
  show "(extract_data_from_text text ''experience'' \<noteq> Some ''Not found'') =
     has_experience_phrase (lower text)"
    by (rule experience_found_iff)
  show "extract_data_from_text ''I have 5 years experience'' ''experience'' = Some ''5 years''"
    by code_simp
  show "extract_data_from_text ''I have 5 years of experience'' ''experience'' = Some ''Not found''"
    by code_simp
qed

lemma witness_texts:
  "py_in ''I have 5 years of experience'' ''Hello. I have 5 years of experience.''"
  "py_in ''I have 5 years experience'' ''Hello. I have 5 years experience.''"
  "\<not> py_in ''years of experience'' (lower ''Hello. I have 5 years experience.'')"
  by code_simp+

theorem grammar_and_experience_witness:
  "py_in ''I have 5 years of experience'' ''Hello. I have 5 years of experience.'' \<and>
   findings ''Hello. I have 5 years of experience.'' ''grammatical_errors'' = Some [] \<and>
   py_in ''I have 5 years experience'' ''Hello. I have 5 years experience.'' \<and>
   \<not> py_in ''years of experience'' (lower ''Hello. I have 5 years experience.'') \<and>
   findings ''Hello. I have 5 years experience.'' ''grammatical_errors'' = Some [grammar_finding]"
  using grammar_and_experience [of "[]" "''Hello. I have 5 years of experience.''"
      "''Hello. I have 5 years experience.''"] witness_texts
  by blast

text \<open>
  The claim as stated fails: the text \<open>3 year experience\<close> does not contain
  \<open>years experience\<close>, and its experience field is extracted.
\<close>

theorem singular_year_extracted:
  "extract_data_from_text ''3 year experience'' ''experience'' = Some ''3 years'' \<and>
   \<not> py_in ''years experience'' (lower ''3 year experience'')"
  by code_simp

section \<open>Properties of the shell\<close>

lemma run_analysis_calls:
  "\<exists>rest. run_analysis classifier file job_description =
     Sleep 3 # Call_extract_text file #
     Call_get_resume_score (extract_text_from_pdf file) job_description # rest"
  by (simp add: run_analysis_def Let_def split: sum.split prod.split)

text \<open>
  Claim C9. With the button pressed and no uploaded document the branch does nothing but
  show the upload message; with a document and an empty job description it does nothing
  but show the job-description message; the two messages differ; and whenever the branch
  calls one of the four core operations, the button was pressed, a document was uploaded
  and the job description is not empty.
\<close>

theorem missing_input:
  "main_area classifier True None job_description = [St_error upload_message] \<and>
   main_area classifier True (Some file) [] = [St_error job_description_message] \<and>
   upload_message \<noteq> job_description_message \<and>
   (\<forall>e\<in>set (main_area classifier analyze_button uploaded_file job_description).
      core_call e \<longrightarrow> analyze_button \<and> uploaded_file \<noteq> None \<and> job_description \<noteq> [])"
  by (simp add: main_area_def upload_message_def job_description_message_def core_call_def)

theorem missing_input_witness:
  "main_area stub True None ''engineer'' = [St_error upload_message] \<and>
   \<not> list_ex core_call (main_area stub True None ''engineer'') \<and>
   \<not> list_ex core_call (main_area stub True (Some [''cv'']) []) \<and>
   list_ex core_call (main_area stub True (Some [''cv'']) ''engineer'')"
proof -
  obtain rest where "run_analysis stub [''cv''] ''engineer'' =
     Sleep 3 # Call_extract_text [''cv''] #
     Call_get_resume_score (extract_text_from_pdf [''cv'']) ''engineer'' # rest"
    using run_analysis_calls by blast
  then have "list_ex core_call (main_area stub True (Some [''cv'']) ''engineer'')"
    by (simp add: main_area_def core_call_def)
  then show ?thesis
    using missing_input [of stub "''engineer''" "[''cv'']" True "Some [''cv'']"]
    by (simp add: core_call_def)
qed

end
